theory Spec2Isabelle
  imports Main "HOL-Library.Sublist" "HOL-Library.Multiset" "HOL-Library.Char_ord"
    "HOL-Library.List_Lexorder"
begin

section \<open>Data model\<close>

text \<open>
  The \<open>Story\<close> type of \<open>App.tsx\<close>. The two numeric fields are integers, as the
  data model says; the four others are strings.
\<close>

record story =
  objectID :: string
  url :: string
  title :: string
  author :: string
  num_comments :: int
  points :: int

text \<open>\<open>StoriesState\<close>: the snapshot held by the reducer.\<close>

record storiesState =
  data :: "story list"
  isLoading :: bool
  isError :: bool

text \<open>
  \<open>StoriesAction\<close>. The JavaScript revisions dispatch on the string \<open>action.type\<close>, so an
  action of any other kind can reach the \<open>default\<close> branch; \<open>OTHER_ACTION\<close> carries such a
  type string.
\<close>

datatype storiesAction =
    STORIES_FETCH_INIT
  | STORIES_FETCH_SUCCESS "story list"
  | STORIES_FETCH_FAILURE
  | REMOVE_STORY story
  | OTHER_ACTION string

datatype error = Error

section \<open>Result set state machine\<close>

text \<open>
  \<open>storiesReducer\<close>, the same in \<open>App.js\<close>, \<open>App.tsx\<close> and the earlier JavaScript
  revision. The \<open>default\<close> branch throws: the result is \<open>Inl Error\<close>.
\<close>

fun storiesReducer :: "storiesState \<Rightarrow> storiesAction \<Rightarrow> error + storiesState" where
  "storiesReducer state STORIES_FETCH_INIT =
     Inr (state\<lparr>isLoading := True, isError := False\<rparr>)"
| "storiesReducer state (STORIES_FETCH_SUCCESS payload) =
     Inr (state\<lparr>isLoading := False, isError := False, data := payload\<rparr>)"
| "storiesReducer state STORIES_FETCH_FAILURE =
     Inr (state\<lparr>isLoading := False, isError := True\<rparr>)"
| "storiesReducer state (REMOVE_STORY payload) =
     Inr (state\<lparr>data := filter (\<lambda>story. objectID payload \<noteq> objectID story) (data state)\<rparr>)"
| "storiesReducer state (OTHER_ACTION t) = Inl Error"

text \<open>The initial state handed to \<open>React.useReducer\<close> in \<open>App\<close>.\<close>

definition initialStories :: storiesState where
  "initialStories = \<lparr>data = [], isLoading = False, isError = False\<rparr>"

text \<open>
  Dispatching a sequence of actions, one after the other, from a state. A throwing
  reducer call ends the run with its error.
\<close>

fun dispatchAll :: "storiesState \<Rightarrow> storiesAction list \<Rightarrow> error + storiesState" where
  "dispatchAll state [] = Inr state"
| "dispatchAll state (a # as) =
     (case storiesReducer state a of
        Inl e \<Rightarrow> Inl e
      | Inr state' \<Rightarrow> dispatchAll state' as)"

text \<open>The four action kinds the application dispatches.\<close>

fun knownAction :: "storiesAction \<Rightarrow> bool" where
  "knownAction (OTHER_ACTION t) = False"
| "knownAction a = True"

text \<open>Sample stories used by the concrete instances below.\<close>

definition storyA :: story where
  "storyA = \<lparr>objectID = ''1'', url = ''u1'', title = ''A'', author = ''x'',
             num_comments = 1, points = 1\<rparr>"

definition storyB :: story where
  "storyB = \<lparr>objectID = ''2'', url = ''u2'', title = ''B'', author = ''y'',
             num_comments = 1, points = 1\<rparr>"

section \<open>Search submission and search history\<close>

definition API_ENDPOINT :: string where
  "API_ENDPOINT = ''https://hn.algolia.com/api/v1/search?query=''"

text \<open>
  \<open>String.prototype.replace\<close> with a string pattern: the first occurrence of the pattern,
  scanning from the left, is replaced, and a string without the pattern is returned as it
  is. The only replacement string the program passes is the empty one, so the \<open>$\<close>
  escapes of the replacement are not modelled.
\<close>

fun replace :: "string \<Rightarrow> string \<Rightarrow> string \<Rightarrow> string" where
  "replace [] pat rep = (if pat = [] then rep else [])"
| "replace (c # cs) pat rep =
     (if prefix pat (c # cs) then rep @ drop (length pat) (c # cs)
      else c # replace cs pat rep)"

text \<open>
  \<open>Array.prototype.slice(start)\<close> with one argument: a negative start counts from the
  end, and the start is clamped to the array.
\<close>

definition slice :: "'a list \<Rightarrow> int \<Rightarrow> 'a list" where
  "slice xs start =
     (let len = int (length xs);
          k = (if start < 0 then max (len + start) 0 else min start len)
      in drop (nat k) xs)"

definition extractSearchTerm :: "string \<Rightarrow> string" where
  "extractSearchTerm u = replace u API_ENDPOINT []"

definition getLastSearches :: "string list \<Rightarrow> string list" where
  "getLastSearches us = map extractSearchTerm (slice us (- 5))"

definition getUrl :: "string \<Rightarrow> string" where
  "getUrl term = API_ENDPOINT @ term"

text \<open>
  The state of the \<open>App\<close> component of \<open>App.js\<close>: the search term of the input field,
  the list of issued URLs and the reducer's snapshot.
\<close>

record app =
  searchTerm :: string
  urls :: "string list"
  stories :: storiesState

text \<open>
  \<open>handleSearch\<close>: \<open>urls.concat(url)\<close> with a string argument is the old array followed
  by that one string.
\<close>

definition handleSearch :: "app \<Rightarrow> string \<Rightarrow> app" where
  "handleSearch st term = (let u = getUrl term in st\<lparr>urls := urls st @ [u]\<rparr>)"

text \<open>\<open>handleSearchSubmit\<close>: \<open>event.preventDefault()\<close> does not touch the state.\<close>

definition handleSearchSubmit :: "app \<Rightarrow> app" where
  "handleSearchSubmit st = handleSearch st (searchTerm st)"

text \<open>
  \<open>handleLastSearch\<close>: the button of a history entry calls it with that entry's term.
  The parameter is named \<open>url\<close>, and the body passes \<open>searchTerm\<close>, which is the
  component's state variable.
\<close>

definition handleLastSearch :: "app \<Rightarrow> string \<Rightarrow> app" where
  "handleLastSearch st u = handleSearch st (searchTerm st)"

definition handleSearchInput :: "app \<Rightarrow> string \<Rightarrow> app" where
  "handleSearchInput st v = st\<lparr>searchTerm := v\<rparr>"

section \<open>Sort controller\<close>

datatype sortKeys = NONE | TITLE | AUTHOR | COMMENT | POINT

record sortState =
  sortKey :: sortKeys
  isReverse :: bool

text \<open>The initial value of the \<open>sort\<close> state of \<open>List\<close>.\<close>

definition initialSort :: sortState where
  "initialSort = \<lparr>sortKey = NONE, isReverse = False\<rparr>"

definition handleSort :: "sortState \<Rightarrow> sortKeys \<Rightarrow> sortState" where
  "handleSort srt k =
     (let r = (sortKey srt = k \<and> \<not> isReverse srt)
      in \<lparr>sortKey = k, isReverse = r\<rparr>)"

text \<open>
  The keys the four column header buttons of \<open>List\<close> pass to \<open>handleSort\<close>; no control
  passes \<open>NONE\<close>.
\<close>

fun headerKey :: "sortKeys \<Rightarrow> bool" where
  "headerKey NONE = False"
| "headerKey k = True"

fun clickAll :: "sortState \<Rightarrow> sortKeys list \<Rightarrow> sortState" where
  "clickAll srt [] = srt"
| "clickAll srt (k # ks) = clickAll (handleSort srt k) ks"

text \<open>
  Arrays are objects: \<open>SORTS.NONE\<close> returns the very array it is given, and
  \<open>Array.prototype.reverse\<close> reverses the array it is called on in place and returns it.
  The store is the list of all arrays allocated so far, and a reference is an index into it.
\<close>

type_synonym store = "story list list"
type_synonym ref = nat

definition alloc :: "store \<Rightarrow> story list \<Rightarrow> store \<times> ref" where
  "alloc h xs = (h @ [xs], length h)"

text \<open>
  lodash's \<open>sortBy(list, field)\<close>, an external collaborator: a stable sort in ascending
  order of the field, whose result is a new array. Strings compare lexicographically by
  character code, numbers by value.
\<close>

definition sortBy :: "store \<Rightarrow> ref \<Rightarrow> (story \<Rightarrow> 'k::linorder) \<Rightarrow> store \<times> ref" where
  "sortBy h list field = alloc h (sort_key field (h ! list))"

definition reverse :: "store \<times> ref \<Rightarrow> store \<times> ref" where
  "reverse r = (case r of (h, a) \<Rightarrow> (h[a := rev (h ! a)], a))"

fun SORTS :: "sortKeys \<Rightarrow> store \<Rightarrow> ref \<Rightarrow> store \<times> ref" where
  "SORTS NONE h list = (h, list)"
| "SORTS TITLE h list = sortBy h list title"
| "SORTS AUTHOR h list = sortBy h list author"
| "SORTS COMMENT h list = reverse (sortBy h list num_comments)"
| "SORTS POINT h list = reverse (sortBy h list points)"

text \<open>The \<open>sortedList\<close> computed by every render of \<open>List\<close>.\<close>

definition sortedList :: "sortState \<Rightarrow> store \<Rightarrow> ref \<Rightarrow> store \<times> ref" where
  "sortedList srt h list =
     (let sortFunction = SORTS (sortKey srt)
      in if isReverse srt then reverse (sortFunction h list) else sortFunction h list)"

text \<open>The elements of the array a call has returned.\<close>

definition content :: "store \<times> ref \<Rightarrow> story list" where
  "content r = (case r of (h, a) \<Rightarrow> h ! a)"

section \<open>Persistent value cell\<close>

text \<open>
  \<open>localStorage\<close>: \<open>getItem\<close> returns \<open>null\<close> (here \<open>None\<close>) for a key that is not
  stored.
\<close>

type_synonym storage = "string \<rightharpoonup> string"

definition getItem :: "storage \<Rightarrow> string \<Rightarrow> string option" where
  "getItem ls key = ls key"

definition setItem :: "storage \<Rightarrow> string \<Rightarrow> string \<Rightarrow> storage" where
  "setItem ls key v = ls(key \<mapsto> v)"

text \<open>
  The operator \<open>||\<close> on a string or \<open>null\<close>: the right operand is taken when the left one
  is falsy, and both \<open>null\<close> and the empty string are.
\<close>

fun orElse :: "string option \<Rightarrow> string \<Rightarrow> string" where
  "orElse None d = d"
| "orElse (Some s) d = (if s = [] then d else s)"

text \<open>
  What React keeps for one use of the hook between renders: the \<open>useState\<close> slot, and
  the dependency array \<open>[value, key]\<close> of the effect as it was when the effect last ran.
\<close>

record hook =
  held :: string
  deps :: "string \<times> string"

text \<open>
  One render of a component calling \<open>useSemiPersistentState(key, initialState)\<close>, with
  its effect run. On the first render (no hook state yet) the initial value is computed
  and the effect runs; on a later render the initial value is ignored, and the effect
  runs when \<open>value\<close> or \<open>key\<close> differs from the last run.
\<close>

fun useSemiPersistentState ::
  "string \<Rightarrow> string \<Rightarrow> storage \<times> hook option \<Rightarrow> storage \<times> hook" where
  "useSemiPersistentState key initialState (ls, None) =
     (let v = orElse (getItem ls key) initialState
      in (setItem ls key v, \<lparr>held = v, deps = (v, key)\<rparr>))"
| "useSemiPersistentState key initialState (ls, Some hk) =
     (if deps hk = (held hk, key) then (ls, hk)
      else (setItem ls key (held hk), hk\<lparr>deps := (held hk, key)\<rparr>))"

text \<open>\<open>setValue(v)\<close> stores the new value in the slot; React then renders again.\<close>

definition setValue :: "string \<Rightarrow> string \<Rightarrow> storage \<times> hook \<Rightarrow> string \<Rightarrow> storage \<times> hook" where
  "setValue key initialState r v =
     (case r of (ls, hk) \<Rightarrow> useSemiPersistentState key initialState (ls, Some (hk\<lparr>held := v\<rparr>)))"

fun setValues :: "string \<Rightarrow> string \<Rightarrow> storage \<times> hook \<Rightarrow> string list \<Rightarrow> storage \<times> hook" where
  "setValues key initialState r [] = r"
| "setValues key initialState r (v # vs) =
     setValues key initialState (setValue key initialState r v) vs"

section \<open>Notions used by the statements\<close>

text \<open>
  The value a sort function puts into the array it returns, as a function of the elements
  of its argument: the closed form of \<open>SORTS\<close> without the store.
\<close>

fun ordered :: "sortKeys \<Rightarrow> story list \<Rightarrow> story list" where
  "ordered NONE xs = xs"
| "ordered TITLE xs = sort_key title xs"
| "ordered AUTHOR xs = sort_key author xs"
| "ordered COMMENT xs = rev (sort_key num_comments xs)"
| "ordered POINT xs = rev (sort_key points xs)"

text \<open>
  A list that is already sorted by a key and a direction. The base orders are those of
  the design: none for \<open>NONE\<close>, ascending by field for \<open>TITLE\<close> and \<open>AUTHOR\<close>,
  descending by field for \<open>COMMENT\<close> and \<open>POINT\<close>; with \<open>isReverse\<close> the order is the
  inverted base order.
\<close>

definition ascending :: "(story \<Rightarrow> 'k::linorder) \<Rightarrow> story list \<Rightarrow> bool" where
  "ascending field xs = sorted (map field xs)"

definition descending :: "(story \<Rightarrow> 'k::linorder) \<Rightarrow> story list \<Rightarrow> bool" where
  "descending field xs = sorted (rev (map field xs))"

fun inBaseOrder :: "sortKeys \<Rightarrow> story list \<Rightarrow> bool" where
  "inBaseOrder NONE xs = True"
| "inBaseOrder TITLE xs = ascending title xs"
| "inBaseOrder AUTHOR xs = ascending author xs"
| "inBaseOrder COMMENT xs = descending num_comments xs"
| "inBaseOrder POINT xs = descending points xs"

definition alreadySorted :: "sortState \<Rightarrow> story list \<Rightarrow> bool" where
  "alreadySorted srt xs =
     (if isReverse srt then inBaseOrder (sortKey srt) (rev xs) else inBaseOrder (sortKey srt) xs)"

text \<open>No two entries of the list have the same value in the field of the sort key.\<close>

fun tieFree :: "sortKeys \<Rightarrow> story list \<Rightarrow> bool" where
  "tieFree NONE xs = True"
| "tieFree TITLE xs = distinct (map title xs)"
| "tieFree AUTHOR xs = distinct (map author xs)"
| "tieFree COMMENT xs = distinct (map num_comments xs)"
| "tieFree POINT xs = distinct (map points xs)"

text \<open>
  The sort states in which the result of \<open>sortBy\<close> is reversed an odd number of times:
  once by \<open>isReverse\<close> for \<open>TITLE\<close> and \<open>AUTHOR\<close>, once by the sort function itself for
  \<open>COMMENT\<close> and \<open>POINT\<close> without \<open>isReverse\<close>.
\<close>

fun reversedOnce :: "sortState \<Rightarrow> bool" where
  "reversedOnce srt =
     (case sortKey srt of
        NONE \<Rightarrow> False
      | TITLE \<Rightarrow> isReverse srt
      | AUTHOR \<Rightarrow> isReverse srt
      | COMMENT \<Rightarrow> \<not> isReverse srt
      | POINT \<Rightarrow> \<not> isReverse srt)"

text \<open>
  The store and the hook agree: the store holds the hook's value under the key, and the
  effect has run for that value.
\<close>

definition synced :: "string \<Rightarrow> storage \<times> hook \<Rightarrow> bool" where
  "synced key r = (case r of (ls, hk) \<Rightarrow> ls key = Some (held hk) \<and> deps hk = (held hk, key))"

text \<open>
  The state of \<open>App\<close> on its first render when nothing is stored: the default term
  \<open>React\<close> and its URL.
\<close>

definition initialApp :: app where
  "initialApp = \<lparr>searchTerm = ''React'', urls = [getUrl ''React''],
                  stories = initialStories\<rparr>"

text \<open>An application state with a history: \<open>Redux\<close> was typed and submitted.\<close>

definition historyState :: app where
  "historyState = handleSearchSubmit (handleSearchInput initialApp ''Redux'')"

section \<open>Properties of the reducer\<close>

text \<open>
  C1. From any state, \<open>FETCH_INIT\<close> gives \<open>isLoading = true\<close>, \<open>isError = false\<close> and the
  same data; \<open>FETCH_SUCCESS(payload)\<close> gives \<open>isLoading = false\<close>, \<open>isError = false\<close> and
  \<open>data = payload\<close>; \<open>FETCH_FAILURE\<close> gives \<open>isLoading = false\<close>, \<open>isError = true\<close> and
  the same data.
\<close>

theorem storiesReducer_fetch_transitions:
  "storiesReducer state STORIES_FETCH_INIT =
     Inr \<lparr>data = data state, isLoading = True, isError = False\<rparr>
   \<and> storiesReducer state (STORIES_FETCH_SUCCESS payload) =
     Inr \<lparr>data = payload, isLoading = False, isError = False\<rparr>
   \<and> storiesReducer state STORIES_FETCH_FAILURE =
     Inr \<lparr>data = data state, isLoading = False, isError = True\<rparr>"
  by simp

text \<open>
  C2. From any state and for any story item, \<open>REMOVE_STORY(item)\<close> returns a state whose
  data has no entry with the item's \<open>objectID\<close>, is a subsequence of the old data and has
  the same entries with another \<open>objectID\<close>, in the same order; \<open>isLoading\<close> and
  \<open>isError\<close> are as before. When no entry has the item's \<open>objectID\<close>, the state is
  returned as it was, and no error is raised.
\<close>

theorem storiesReducer_remove_story:
  "\<exists>state'. storiesReducer state (REMOVE_STORY item) = Inr state'
     \<and> (\<forall>s \<in> set (data state'). objectID s \<noteq> objectID item)
     \<and> subseq (data state') (data state)
     \<and> filter (\<lambda>s. objectID s \<noteq> objectID item) (data state')
         = filter (\<lambda>s. objectID s \<noteq> objectID item) (data state)
     \<and> isLoading state' = isLoading state
     \<and> isError state' = isError state
     \<and> ((\<forall>s \<in> set (data state). objectID s \<noteq> objectID item) \<longrightarrow> state' = state)"
proof -
  let ?keep = "\<lambda>s. objectID item \<noteq> objectID s"
  have same: "(\<lambda>s. objectID s \<noteq> objectID item) = ?keep" by auto
  have noop: "filter ?keep (data state) = data state"
    if "\<forall>s \<in> set (data state). objectID s \<noteq> objectID item"
    using that by (intro filter_True) auto
  show ?thesis
    by (auto simp: same noop)
qed

text \<open>
  C2, at concrete states: removing story 1 from the list 1, 2, 1 leaves story 2 and the
  flags, and removing story 1 from a list without it changes nothing.
\<close>

theorem storiesReducer_remove_story_witness:
  "storiesReducer \<lparr>data = [storyA, storyB, storyA], isLoading = False, isError = True\<rparr>
       (REMOVE_STORY storyA)
     = Inr \<lparr>data = [storyB], isLoading = False, isError = True\<rparr>
   \<and> objectID storyB \<noteq> objectID storyA
   \<and> storiesReducer \<lparr>data = [storyB], isLoading = False, isError = True\<rparr> (REMOVE_STORY storyA)
     = Inr \<lparr>data = [storyB], isLoading = False, isError = True\<rparr>"
  using storiesReducer_remove_story
    [of "\<lparr>data = [storyB], isLoading = False, isError = True\<rparr>" storyA]
  by (simp add: storyA_def storyB_def)

lemma dispatchAll_append:
  "dispatchAll state (as @ bs) =
     (case dispatchAll state as of Inl e \<Rightarrow> Inl e | Inr mid \<Rightarrow> dispatchAll mid bs)"
  by (induction as arbitrary: state) (auto split: sum.splits)

lemma dispatchAll_known:
  "\<forall>a \<in> set as. knownAction a \<Longrightarrow> \<not> (isLoading state \<and> isError state)
   \<Longrightarrow> \<exists>state'. dispatchAll state as = Inr state' \<and> \<not> (isLoading state' \<and> isError state')"
proof (induction as arbitrary: state)
  case Nil
  then show ?case by simp
next
  case (Cons a as)
  from Cons.prems(1) have ka: "knownAction a" and rest: "\<forall>b \<in> set as. knownAction b"
    by simp_all
  from ka Cons.prems(2) obtain mid where
    step: "storiesReducer state a = Inr mid" and inv: "\<not> (isLoading mid \<and> isError mid)"
    by (cases a) auto
  from Cons.IH [OF rest inv] step show ?case by simp
qed

lemma storiesReducer_data_frame:
  "storiesReducer state a = Inr state' \<Longrightarrow> data state' \<noteq> data state \<Longrightarrow>
     (\<exists>payload. a = STORIES_FETCH_SUCCESS payload \<and> data state' = payload)
   \<or> (\<exists>item. a = REMOVE_STORY item
         \<and> data state' = filter (\<lambda>s. objectID item \<noteq> objectID s) (data state))"
  by (cases a) auto

text \<open>
  C8. Dispatching any sequence of actions of the four kinds from the initial state
  succeeds, and at every step of it (the state \<open>s\<close> after a prefix, the next action \<open>a\<close>,
  the state \<open>s'\<close> after it) \<open>isLoading\<close> and \<open>isError\<close> are not both true, before and
  after; if the data differs between \<open>s\<close> and \<open>s'\<close>, then \<open>a\<close> is \<open>FETCH_SUCCESS\<close> and the
  data is its payload, or \<open>a\<close> is \<open>REMOVE_STORY\<close> and the data is the old data without the
  entries of the item's \<open>objectID\<close>.
\<close>

theorem reachable_states_invariant:
  assumes known: "\<forall>b \<in> set (pre @ [a]). knownAction b"
  shows "\<exists>s s'. dispatchAll initialStories pre = Inr s
           \<and> storiesReducer s a = Inr s'
           \<and> dispatchAll initialStories (pre @ [a]) = Inr s'
           \<and> \<not> (isLoading s \<and> isError s)
           \<and> \<not> (isLoading s' \<and> isError s')
           \<and> (data s' \<noteq> data s \<longrightarrow>
                (\<exists>payload. a = STORIES_FETCH_SUCCESS payload \<and> data s' = payload)
              \<or> (\<exists>item. a = REMOVE_STORY item
                    \<and> data s' = filter (\<lambda>x. objectID item \<noteq> objectID x) (data s)))"
proof -
  have init: "\<not> (isLoading initialStories \<and> isError initialStories)"
    by (simp add: initialStories_def)
  from known have kpre: "\<forall>b \<in> set pre. knownAction b" by simp
  from dispatchAll_known [OF kpre init] obtain s where
    s: "dispatchAll initialStories pre = Inr s" and invs: "\<not> (isLoading s \<and> isError s)"
    by blast
  from dispatchAll_known [OF known init] obtain s' where
    s': "dispatchAll initialStories (pre @ [a]) = Inr s'"
    and invs': "\<not> (isLoading s' \<and> isError s')"
    by blast
  from s s' have step: "storiesReducer s a = Inr s'"
    by (simp add: dispatchAll_append split: sum.splits)
  from storiesReducer_data_frame [OF step] s s' step invs invs' show ?thesis by blast
qed

text \<open>
  C8, at a concrete run: a fetch that starts and fails, then a successful one whose
  payload replaces the empty data.
\<close>

theorem reachable_states_invariant_witness:
  "knownAction STORIES_FETCH_INIT \<and> knownAction STORIES_FETCH_FAILURE
   \<and> knownAction (STORIES_FETCH_SUCCESS [storyA])
   \<and> dispatchAll initialStories [STORIES_FETCH_INIT, STORIES_FETCH_FAILURE, STORIES_FETCH_INIT]
       = Inr \<lparr>data = [], isLoading = True, isError = False\<rparr>
   \<and> dispatchAll initialStories ([STORIES_FETCH_INIT, STORIES_FETCH_FAILURE, STORIES_FETCH_INIT]
        @ [STORIES_FETCH_SUCCESS [storyA]])
       = Inr \<lparr>data = [storyA], isLoading = False, isError = False\<rparr>"
  using reachable_states_invariant
    [of "[STORIES_FETCH_INIT, STORIES_FETCH_FAILURE, STORIES_FETCH_INIT]"
        "STORIES_FETCH_SUCCESS [storyA]"]
  by (simp add: initialStories_def)

section \<open>Properties of search submission and search history\<close>

lemma replace_prefix: "replace (pat @ rest) pat [] = rest"
proof (cases "pat @ rest")
  case Nil
  then show ?thesis by simp
next
  case (Cons c cs)
  have "prefix pat (pat @ rest)" by simp
  with Cons have "replace (c # cs) pat [] = drop (length pat) (c # cs)" by simp
  also have "\<dots> = rest" using Cons [symmetric] by simp
  finally show ?thesis using Cons by simp
qed

lemma extractSearchTerm_getUrl: "extractSearchTerm (getUrl term) = term"
  by (simp add: extractSearchTerm_def getUrl_def replace_prefix)

lemma slice_last_five: "slice xs (- 5) = drop (length xs - 5) xs"
  by (auto simp: slice_def Let_def max_def intro: arg_cong [where f = "\<lambda>n. drop n xs"])

text \<open>
  C5, as the code has it. The history derived from the URLs of a sequence of search terms
  is the last 5 of these terms (all of them when there are fewer), in the order of issue,
  repeated terms included; it never has more than 5 entries; each entry is the URL with
  the first occurrence of the endpoint removed, which for a URL built by \<open>getUrl\<close> is the
  term it was built from.
\<close>

theorem getLastSearches_last_five:
  "getLastSearches (map getUrl terms) = drop (length terms - 5) terms
   \<and> length (getLastSearches us) \<le> 5
   \<and> getLastSearches us = map extractSearchTerm (drop (length us - 5) us)
   \<and> extractSearchTerm (getUrl term) = term"
  by (simp add: getLastSearches_def slice_last_five drop_map [symmetric]
      extractSearchTerm_getUrl comp_def del: drop_map)

text \<open>
  C5, the word "distinct": submitting the initial term \<open>React\<close> once more gives a history
  with \<open>React\<close> twice.
\<close>

theorem getLastSearches_not_distinct:
  "getLastSearches (urls (handleSearchSubmit initialApp)) = [''React'', ''React'']
   \<and> \<not> distinct (getLastSearches (urls (handleSearchSubmit initialApp)))"
  by (simp add: getLastSearches_def slice_def extractSearchTerm_def getUrl_def API_ENDPOINT_def
      handleSearchSubmit_def handleSearch_def initialApp_def)

text \<open>
  C6, the code at a concrete state. After \<open>React\<close> and \<open>Redux\<close> were searched the history
  row shows \<open>React\<close>; selecting it appends the URL of \<open>Redux\<close>, the term of the input
  field, and not the URL of \<open>React\<close>.
\<close>

theorem handleLastSearch_ignores_selection:
  "searchTerm historyState = ''Redux''
   \<and> getLastSearches (urls historyState) = [''React'', ''Redux'']
   \<and> urls (handleLastSearch historyState ''React'') = urls historyState @ [getUrl ''Redux'']
   \<and> urls (handleLastSearch historyState ''React'') \<noteq> urls historyState @ [getUrl ''React'']"
  by (simp add: historyState_def initialApp_def handleSearchInput_def handleSearchSubmit_def
      handleLastSearch_def handleSearch_def getLastSearches_def slice_def extractSearchTerm_def
      getUrl_def API_ENDPOINT_def)

text \<open>
  C10. For every URL list and every submitted term, \<open>handleSearch\<close> and the submission
  handler return the old list followed by the URL built from the term: the first elements
  are the old list, there is one element more, and it is that URL.
\<close>

theorem handleSearch_appends:
  "urls (handleSearch st term) = urls st @ [getUrl term]
   \<and> urls (handleSearchSubmit st) = urls st @ [getUrl (searchTerm st)]
   \<and> take (length (urls st)) (urls (handleSearchSubmit st)) = urls st
   \<and> length (urls (handleSearchSubmit st)) = Suc (length (urls st))
   \<and> last (urls (handleSearchSubmit st)) = getUrl (searchTerm st)"
  by (simp add: handleSearch_def handleSearchSubmit_def)

section \<open>Properties of the sort controller\<close>

text \<open>
  C3. Selecting the active sort key keeps the key and negates \<open>isReverse\<close>; selecting
  another key switches to it with \<open>isReverse = false\<close>.
\<close>

theorem handleSort_toggle_or_switch:
  "(k = sortKey srt \<longrightarrow>
      handleSort srt k = \<lparr>sortKey = sortKey srt, isReverse = \<not> isReverse srt\<rparr>)
   \<and> (k \<noteq> sortKey srt \<longrightarrow> handleSort srt k = \<lparr>sortKey = k, isReverse = False\<rparr>)"
  by (auto simp: handleSort_def)

text \<open>
  C3, at concrete states: \<open>TITLE\<close> then \<open>TITLE\<close> gives the reversed title order,
  \<open>TITLE\<close> then \<open>AUTHOR\<close> the author order, not reversed.
\<close>

theorem handleSort_toggle_or_switch_witness:
  "handleSort (handleSort initialSort TITLE) TITLE = \<lparr>sortKey = TITLE, isReverse = True\<rparr>
   \<and> handleSort (handleSort initialSort TITLE) AUTHOR = \<lparr>sortKey = AUTHOR, isReverse = False\<rparr>"
  using handleSort_toggle_or_switch [of TITLE "handleSort initialSort TITLE"]
    handleSort_toggle_or_switch [of AUTHOR "handleSort initialSort TITLE"]
  by (simp add: handleSort_def initialSort_def)

lemma reverse_fresh: "reverse (h @ [xs], length h) = (h @ [rev xs], length h)"
  by (simp add: reverse_def)

lemma SORTS_fresh: "k \<noteq> NONE \<Longrightarrow> SORTS k h a = (h @ [ordered k (h ! a)], length h)"
  by (cases k) (simp_all add: sortBy_def alloc_def reverse_fresh)

lemma sortedList_fresh:
  "sortKey srt \<noteq> NONE \<Longrightarrow>
   sortedList srt h a =
     (h @ [if isReverse srt then rev (ordered (sortKey srt) (h ! a))
           else ordered (sortKey srt) (h ! a)],
      length h)"
  by (simp add: sortedList_def SORTS_fresh reverse_fresh)

lemma sortedList_NONE:
  "sortKey srt = NONE \<Longrightarrow>
   sortedList srt h a = (if isReverse srt then (h[a := rev (h ! a)], a) else (h, a))"
  by (simp add: sortedList_def reverse_def)

text \<open>
  The sort states the header buttons lead to: from a state that is not \<open>NONE\<close> with
  \<open>isReverse\<close>, such as the initial one, no sequence of clicks reaches \<open>NONE\<close> with
  \<open>isReverse\<close>.
\<close>

lemma clickAll_never_NONE_reversed:
  "\<forall>k \<in> set ks. headerKey k \<Longrightarrow> sortKey srt \<noteq> NONE \<or> \<not> isReverse srt \<Longrightarrow>
   sortKey (clickAll srt ks) \<noteq> NONE \<or> \<not> isReverse (clickAll srt ks)"
proof (induction ks arbitrary: srt)
  case Nil
  then show ?case by simp
next
  case (Cons k ks)
  from Cons.prems(1) have "headerKey k" by simp
  then have "sortKey (handleSort srt k) \<noteq> NONE" by (cases k) (simp_all add: handleSort_def)
  with Cons.IH [of "handleSort srt k"] Cons.prems(1) show ?case by simp
qed

text \<open>
  The frame of a render: in every sort state other than \<open>NONE\<close> with \<open>isReverse\<close>, the
  input array and every other array that existed before are as they were.
\<close>

lemma sortedList_frame:
  assumes "a < length h" and "sortKey srt \<noteq> NONE \<or> \<not> isReverse srt"
  shows "fst (sortedList srt h a) ! a = h ! a \<and> take (length h) (fst (sortedList srt h a)) = h"
proof (cases "sortKey srt = NONE")
  case True
  with assms(2) show ?thesis by (simp add: sortedList_NONE)
next
  case False
  with assms(1) show ?thesis by (simp add: sortedList_fresh nth_append)
qed

text \<open>
  C4. The sort state of \<open>List\<close> starts as \<open>NONE\<close> without \<open>isReverse\<close> and changes only
  by clicks on the four column headers. For every input array and every sort state that
  any sequence of such clicks leads to, computing the sorted list leaves the input array,
  and every other array that existed before, as it was.
\<close>

theorem sortedList_never_mutates_input:
  assumes valid: "a < length h" and clicks: "\<forall>k \<in> set ks. headerKey k"
  shows "fst (sortedList (clickAll initialSort ks) h a) ! a = h ! a
       \<and> take (length h) (fst (sortedList (clickAll initialSort ks) h a)) = h"
proof -
  have "sortKey initialSort \<noteq> NONE \<or> \<not> isReverse initialSort"
    by (simp add: initialSort_def)
  from clickAll_never_NONE_reversed [OF clicks this]
  have "sortKey (clickAll initialSort ks) \<noteq> NONE \<or> \<not> isReverse (clickAll initialSort ks)" .
  from sortedList_frame [OF valid this] show ?thesis .
qed

text \<open>
  C4, at concrete states. One click on Title sorts the list 2, 1 into 1, 2 and a second
  click gives 2, 1 for the list 1, 2: both times the returned array differs from the
  input array, and the input array still has its elements in their old order.
\<close>

theorem sortedList_never_mutates_input_witness:
  "(0::nat) < length [[storyB, storyA]] \<and> headerKey TITLE
   \<and> clickAll initialSort [TITLE] = \<lparr>sortKey = TITLE, isReverse = False\<rparr>
   \<and> content (sortedList (clickAll initialSort [TITLE]) [[storyB, storyA]] 0) = [storyA, storyB]
   \<and> fst (sortedList (clickAll initialSort [TITLE]) [[storyB, storyA]] 0) ! 0 = [storyB, storyA]
   \<and> clickAll initialSort [TITLE, TITLE] = \<lparr>sortKey = TITLE, isReverse = True\<rparr>
   \<and> content (sortedList (clickAll initialSort [TITLE, TITLE]) [[storyA, storyB]] 0)
       = [storyB, storyA]
   \<and> fst (sortedList (clickAll initialSort [TITLE, TITLE]) [[storyA, storyB]] 0) ! 0
       = [storyA, storyB]
   \<and> [storyA, storyB] \<noteq> [storyB, storyA]"
  using sortedList_never_mutates_input [of 0 "[[storyB, storyA]]" "[TITLE]"]
    sortedList_never_mutates_input [of 0 "[[storyA, storyB]]" "[TITLE, TITLE]"]
  by (simp add: initialSort_def handleSort_def sortedList_def sortBy_def alloc_def reverse_def
      content_def storyA_def storyB_def)

text \<open>
  A state outside these: \<open>NONE\<close> with \<open>isReverse\<close>, which no click leads to. There the
  sort function returns the input array itself, and \<open>reverse\<close> reverses it in place.
\<close>

lemma sortedList_NONE_reverse_in_place:
  "fst (sortedList \<lparr>sortKey = NONE, isReverse = True\<rparr> [[storyA, storyB]] 0) ! 0
     = [storyB, storyA]
   \<and> [[storyA, storyB]] ! 0 \<noteq> [storyB, storyA]"
  by (simp add: sortedList_def reverse_def storyA_def storyB_def)

lemma sort_key_ascending: "ascending f xs \<Longrightarrow> sort_key f xs = xs"
  by (simp add: ascending_def sort_key_id_if_sorted)

lemma sort_key_descending:
  assumes "descending f xs" and "distinct (map f xs)"
  shows "rev (sort_key f xs) = xs"
proof -
  from assms(2) have inj: "inj_on f (set xs)" by (simp add: distinct_map)
  from assms(1) have up: "sorted (map f (rev xs))" by (simp add: descending_def rev_map)
  have "mset xs = mset (rev xs)" by simp
  from sort_key_inj_key_eq [OF this inj up] show ?thesis by simp
qed

lemma ascending_rev: "ascending f (rev xs) = descending f xs"
  by (simp add: ascending_def descending_def rev_map)

lemma descending_rev: "descending f (rev xs) = ascending f xs"
  by (simp add: ascending_def descending_def rev_map)

text \<open>What a render returns is sorted by the key and direction of its sort state.\<close>

lemma sortedList_alreadySorted: "alreadySorted srt (content (sortedList srt h a))"
proof (cases "sortKey srt")
  case NONE
  then show ?thesis by (simp add: alreadySorted_def)
qed (simp_all add: sortedList_fresh content_def alreadySorted_def ascending_def descending_def
    rev_map [symmetric])

text \<open>
  C9, as the code has it. Computing the sorted list of an array that is already sorted by
  the key and direction of the sort state returns an array with the same elements in the
  same order, provided that no two entries have the same value of the sort field when the
  result of \<open>sortBy\<close> is reversed once (\<open>TITLE\<close> and \<open>AUTHOR\<close> with \<open>isReverse\<close>,
  \<open>COMMENT\<close> and \<open>POINT\<close> without), and that for \<open>NONE\<close> with \<open>isReverse\<close> the array
  reads the same in both directions.
\<close>

theorem sortedList_idempotent:
  assumes valid: "a < length h"
    and sorted: "alreadySorted srt (h ! a)"
    and none: "sortKey srt = NONE \<and> isReverse srt \<longrightarrow> rev (h ! a) = h ! a"
    and ties: "reversedOnce srt \<longrightarrow> tieFree (sortKey srt) (h ! a)"
  shows "content (sortedList srt h a) = h ! a"
proof (cases "sortKey srt")
  case NONE
  with valid none show ?thesis by (simp add: sortedList_NONE content_def)
next
  case TITLE
  with sorted ties show ?thesis
    by (simp add: sortedList_fresh content_def alreadySorted_def ascending_rev
        sort_key_ascending sort_key_descending split: if_splits)
next
  case AUTHOR
  with sorted ties show ?thesis
    by (simp add: sortedList_fresh content_def alreadySorted_def ascending_rev
        sort_key_ascending sort_key_descending split: if_splits)
next
  case COMMENT
  with sorted ties show ?thesis
    by (simp add: sortedList_fresh content_def alreadySorted_def descending_rev
        sort_key_ascending sort_key_descending split: if_splits)
next
  case POINT
  with sorted ties show ?thesis
    by (simp add: sortedList_fresh content_def alreadySorted_def descending_rev
        sort_key_ascending sort_key_descending split: if_splits)
qed

text \<open>
  C9, at a concrete state: two stories in descending title order, with different titles,
  stay as they are under \<open>TITLE\<close> with \<open>isReverse\<close>.
\<close>

theorem sortedList_idempotent_witness:
  "(0::nat) < length [[storyB, storyA]]
   \<and> alreadySorted \<lparr>sortKey = TITLE, isReverse = True\<rparr> ([[storyB, storyA]] ! 0)
   \<and> reversedOnce \<lparr>sortKey = TITLE, isReverse = True\<rparr>
   \<and> tieFree TITLE ([[storyB, storyA]] ! 0)
   \<and> content (sortedList \<lparr>sortKey = TITLE, isReverse = True\<rparr> [[storyB, storyA]] 0)
       = [storyB, storyA]"
  using sortedList_idempotent
    [of 0 "[[storyB, storyA]]" "\<lparr>sortKey = TITLE, isReverse = True\<rparr>"]
  by (simp add: alreadySorted_def ascending_def storyA_def storyB_def)

text \<open>
  C9, two stories with the same number of comments under \<open>COMMENT\<close>: the list 1, 2 is in
  descending order of comments and is what the sort function returns for 2, 1; sorting it
  again returns 2, 1.
\<close>

theorem sortedList_COMMENT_reorders_ties:
  "alreadySorted \<lparr>sortKey = COMMENT, isReverse = False\<rparr> [storyA, storyB]
   \<and> content (sortedList \<lparr>sortKey = COMMENT, isReverse = False\<rparr> [[storyB, storyA]] 0)
       = [storyA, storyB]
   \<and> content (sortedList \<lparr>sortKey = COMMENT, isReverse = False\<rparr> [[storyA, storyB]] 0)
       = [storyB, storyA]
   \<and> [storyB, storyA] \<noteq> [storyA, storyB]"
  by (simp add: alreadySorted_def descending_def sortedList_def sortBy_def alloc_def reverse_def
      content_def storyA_def storyB_def)

section \<open>Properties of the persistent value cell\<close>

lemma mount_synced: "synced key (useSemiPersistentState key initialState (ls, None))"
  by (simp add: synced_def setItem_def Let_def)

lemma setValue_synced:
  "synced key r \<Longrightarrow> synced key (setValue key initialState r v)
     \<and> held (snd (setValue key initialState r v)) = v"
  by (cases r) (auto simp: synced_def setValue_def setItem_def)

lemma setValues_synced:
  "synced key r \<Longrightarrow> synced key (setValues key initialState r vs)
     \<and> held (snd (setValues key initialState r vs)) = last (held (snd r) # vs)"
proof (induction vs arbitrary: r)
  case Nil
  then show ?case by simp
next
  case (Cons v vs)
  from setValue_synced [OF Cons.prems, of initialState v]
  have s: "synced key (setValue key initialState r v)"
    and h: "held (snd (setValue key initialState r v)) = v" by simp_all
  from Cons.IH [OF s] h show ?case by simp
qed

text \<open>
  C7, as the code has it. On the first render the held value is the default when the key
  is absent or stores the empty string, and the stored string when the key stores a
  non-empty one; after the first render the store holds the held value under the key; and
  after any sequence of changes of the value, the held value is the last one set and the
  store holds it under the same key.
\<close>

theorem persistent_cell_loads_and_writes_back:
  "(getItem ls key = None \<longrightarrow>
      held (snd (useSemiPersistentState key initialState (ls, None))) = initialState)
   \<and> (getItem ls key = Some [] \<longrightarrow>
      held (snd (useSemiPersistentState key initialState (ls, None))) = initialState)
   \<and> (\<forall>s. getItem ls key = Some s \<and> s \<noteq> [] \<longrightarrow>
      held (snd (useSemiPersistentState key initialState (ls, None))) = s)
   \<and> getItem (fst (useSemiPersistentState key initialState (ls, None))) key
       = Some (held (snd (useSemiPersistentState key initialState (ls, None))))
   \<and> held (snd (setValues key initialState
              (useSemiPersistentState key initialState (ls, None)) (vs @ [v]))) = v
   \<and> getItem (fst (setValues key initialState
              (useSemiPersistentState key initialState (ls, None)) (vs @ [v]))) key = Some v"
proof -
  let ?m = "useSemiPersistentState key initialState (ls, None)"
  have m: "synced key ?m" by (rule mount_synced)
  from setValues_synced [OF m, of initialState "vs @ [v]"]
  have fin: "synced key (setValues key initialState ?m (vs @ [v]))"
    and hv: "held (snd (setValues key initialState ?m (vs @ [v]))) = v" by simp_all
  from fin hv have st: "getItem (fst (setValues key initialState ?m (vs @ [v]))) key = Some v"
    by (cases "setValues key initialState ?m (vs @ [v])") (simp add: synced_def getItem_def)
  from m have st0: "getItem (fst ?m) key = Some (held (snd ?m))"
    by (cases ?m) (simp add: synced_def getItem_def)
  have load: "held (snd ?m) = orElse (getItem ls key) initialState"
    by (simp add: Let_def)
  from load st0 hv st show ?thesis by (auto simp del: useSemiPersistentState.simps)
qed

text \<open>
  C7, at a concrete store holding \<open>Redux\<close> under \<open>search\<close>: the cell of key \<open>search\<close>
  starts with \<open>Redux\<close>, a cell of another key with the default; and after the changes to
  \<open>R\<close> and \<open>Re\<close> the store holds \<open>Re\<close>.
\<close>

theorem persistent_cell_loads_and_writes_back_witness:
  "getItem (Map.empty(''search'' \<mapsto> ''Redux'')) ''search'' = Some ''Redux''
   \<and> ''Redux'' \<noteq> []
   \<and> held (snd (useSemiPersistentState ''search'' ''React''
        (Map.empty(''search'' \<mapsto> ''Redux''), None))) = ''Redux''
   \<and> getItem (Map.empty(''search'' \<mapsto> ''Redux'')) ''other'' = None
   \<and> held (snd (useSemiPersistentState ''other'' ''React''
        (Map.empty(''search'' \<mapsto> ''Redux''), None))) = ''React''
   \<and> getItem (fst (setValues ''search'' ''React''
        (useSemiPersistentState ''search'' ''React'' (Map.empty(''search'' \<mapsto> ''Redux''), None))
        ([''R''] @ [''Re'']))) ''search'' = Some ''Re''"
  using persistent_cell_loads_and_writes_back
      [of "Map.empty(''search'' \<mapsto> ''Redux'')" "''search''" "''React''" "[''R'']" "''Re''"]
    persistent_cell_loads_and_writes_back
      [of "Map.empty(''search'' \<mapsto> ''Redux'')" "''other''" "''React''"]
  by (simp add: getItem_def Let_def)

text \<open>
  C7, a stored empty string: the key \<open>search\<close> is present and stores the empty string,
  and the cell starts with the default \<open>React\<close>.
\<close>

theorem persistent_cell_empty_string_replaced:
  "getItem (Map.empty(''search'' \<mapsto> [])) ''search'' = Some []
   \<and> held (snd (useSemiPersistentState ''search'' ''React''
        (Map.empty(''search'' \<mapsto> []), None))) = ''React''
   \<and> ''React'' \<noteq> []"
  by (simp add: getItem_def Let_def)

end
